theory Spec2Isabelle
  imports Main
begin

section \<open>Organising photos chronologically: the two passes of the notebook\<close>

text \<open>
  The notebook \<^verbatim>\<open>01_organize_photos_chronologically.ipynb\<close> renames shortlisted photos
  after the local time their file names encode (first pass, into \<^verbatim>\<open>img/tmp\<close>) and then
  stores that time in the EXIF block of each staged file (second pass, into
  \<^verbatim>\<open>img/Final\<close>). Both loop bodies are embedded below, together with the parts of
  Python's \<^verbatim>\<open>datetime\<close> module they call.

  Conventions of the embedding.
  \<^item> Python's unbounded integers are \<open>int\<close>; \<open>div\<close> and \<open>mod\<close> on \<open>int\<close> round towards
    minus infinity, as Python's \<^verbatim>\<open>//\<close>, \<^verbatim>\<open>%\<close> and \<^verbatim>\<open>divmod\<close> do.
  \<^item> Strings are lists of 8-bit characters, read as ASCII; characters outside ASCII
    (which Python may also read as digits or spaces) are not digits and not spaces here.
  \<^item> A raised exception is \<open>Inl e\<close>; none of the exceptions below is caught by the
    notebook unless a definition says so, hence \<open>Inl e\<close> is the end of the run.
\<close>

datatype error =
    ValueError | OverflowError | KeyError | TypeError | OSError | DecodeError

subsection \<open>Characters, slices and \<^verbatim>\<open>int(str)\<close>\<close>

definition is_digit :: "char \<Rightarrow> bool" where
  "is_digit c \<longleftrightarrow> 48 \<le> (of_char c :: int) \<and> (of_char c :: int) \<le> 57"

definition digit_val :: "char \<Rightarrow> int" where
  "digit_val c = of_char c - 48"

definition digit_char :: "int \<Rightarrow> char" where
  "digit_char n = char_of (48 + n)"

definition in_range :: "char \<Rightarrow> char \<Rightarrow> char \<Rightarrow> bool" where
  \<comment> \<open>the character class \<^verbatim>\<open>[lo-hi]\<close> of a regular expression\<close>
  "in_range lo hi c \<longleftrightarrow> (of_char lo :: int) \<le> of_char c \<and> (of_char c :: int) \<le> of_char hi"

definition is_space :: "char \<Rightarrow> bool" where
  \<comment> \<open>the characters \<^verbatim>\<open>int\<close> skips at both ends of an ASCII string (C's \<^verbatim>\<open>isspace\<close>:
      tab, line feed, vertical tab, form feed, carriage return, space); the separators
      28 to 31, for which \<^verbatim>\<open>str.isspace\<close> holds too, are not skipped\<close>
  "is_space c \<longleftrightarrow> (of_char c :: int) \<in> set [9, 10, 11, 12, 13, 32]"

definition slice :: "nat \<Rightarrow> nat \<Rightarrow> string \<Rightarrow> string" where
  \<comment> \<open>\<^verbatim>\<open>s[i:j]\<close> for \<open>0 \<le> i \<le> j\<close>: never raises, shorter when \<open>s\<close> is short\<close>
  "slice i j s = take (j - i) (drop i s)"

definition strip :: "string \<Rightarrow> string" where
  "strip s = rev (dropWhile is_space (rev (dropWhile is_space s)))"

fun int_digits :: "int \<Rightarrow> string \<Rightarrow> int option" where
  \<comment> \<open>the digits after the first one; a single underscore may separate two digits\<close>
  "int_digits acc [] = Some acc"
| "int_digits acc [c] = (if is_digit c then Some (10 * acc + digit_val c) else None)"
| "int_digits acc (c # d # cs) =
     (if is_digit c then int_digits (10 * acc + digit_val c) (d # cs)
      else if c = CHR ''_'' \<and> is_digit d then int_digits (10 * acc + digit_val d) cs
      else None)"

definition int_unsigned :: "string \<Rightarrow> int option" where
  "int_unsigned s =
     (case s of [] \<Rightarrow> None
      | c # cs \<Rightarrow> if is_digit c then int_digits (digit_val c) cs else None)"

definition py_int :: "string \<Rightarrow> int option" where
  \<comment> \<open>\<^verbatim>\<open>int(s)\<close> in base 10; \<open>None\<close> stands for the \<^verbatim>\<open>ValueError\<close> it raises\<close>
  "py_int s =
     (case strip s of [] \<Rightarrow> None
      | c # cs \<Rightarrow>
          if c = CHR ''-'' then map_option uminus (int_unsigned cs)
          else if c = CHR ''+'' then int_unsigned cs
          else int_unsigned (c # cs))"

subsection \<open>\<^verbatim>\<open>datetime\<close>: calendar arithmetic\<close>

text \<open>
  A naive \<^verbatim>\<open>datetime\<close> object. The constructor \<open>new_datetime\<close> checks the ranges of
  the fields, as \<^verbatim>\<open>_check_date_fields\<close> and \<^verbatim>\<open>_check_time_fields\<close> do.
\<close>

record datetime =
  year :: int
  month :: int
  day :: int
  hour :: int
  minute :: int
  second :: int
  microsecond :: int

definition MAXORDINAL :: int where
  "MAXORDINAL = 3652059"

definition DAYS_IN_MONTH :: "int list" where
  "DAYS_IN_MONTH = [-1, 31, 28, 31, 30, 31, 30, 31, 31, 30, 31, 30, 31]"

definition DAYS_BEFORE_MONTH :: "int list" where
  "DAYS_BEFORE_MONTH = [-1, 0, 31, 59, 90, 120, 151, 181, 212, 243, 273, 304, 334]"

definition is_leap :: "int \<Rightarrow> bool" where
  "is_leap y \<longleftrightarrow> y mod 4 = 0 \<and> (y mod 100 \<noteq> 0 \<or> y mod 400 = 0)"

definition days_before_year :: "int \<Rightarrow> int" where
  "days_before_year y' = (let y = y' - 1 in y * 365 + y div 4 - y div 100 + y div 400)"

definition days_in_month :: "int \<Rightarrow> int \<Rightarrow> int" where
  \<comment> \<open>called with \<open>1 \<le> m \<le> 12\<close> only (an assertion in the source)\<close>
  "days_in_month y m = (if m = 2 \<and> is_leap y then 29 else DAYS_IN_MONTH ! nat m)"

definition days_before_month :: "int \<Rightarrow> int \<Rightarrow> int" where
  \<comment> \<open>called with \<open>1 \<le> m \<le> 12\<close> only (an assertion in the source)\<close>
  "days_before_month y m =
     DAYS_BEFORE_MONTH ! nat m + (if m > 2 \<and> is_leap y then 1 else 0)"

definition ymd2ord :: "int \<Rightarrow> int \<Rightarrow> int \<Rightarrow> int" where
  "ymd2ord y m d = days_before_year y + days_before_month y m + d"

definition month_day :: "int \<Rightarrow> bool \<Rightarrow> int \<times> int" where
  \<comment> \<open>the end of \<^verbatim>\<open>_ord2ymd\<close>: month and day from the offset \<open>n\<close> into the year;
      \<^verbatim>\<open>(n + 50) >> 5\<close> is a division by 32\<close>
  "month_day n leapyear =
     (let month = (n + 50) div 32;
          preceding = DAYS_BEFORE_MONTH ! nat month + (if month > 2 \<and> leapyear then 1 else 0)
      in if preceding > n
         then let month' = month - 1;
                  preceding' = preceding
                      - (DAYS_IN_MONTH ! nat month' + (if month' = 2 \<and> leapyear then 1 else 0))
              in (month', n - preceding' + 1)
         else (month, n - preceding + 1))"

definition ord2ymd :: "int \<Rightarrow> int \<times> int \<times> int" where
  "ord2ymd n0 =
     (let n = n0 - 1;
          n400 = n div 146097; r400 = n mod 146097;
          n100 = r400 div 36524; r100 = r400 mod 36524;
          n4 = r100 div 1461; r4 = r100 mod 1461;
          n1 = r4 div 365; r1 = r4 mod 365;
          y = n400 * 400 + 1 + n100 * 100 + n4 * 4 + n1
      in if n1 = 4 \<or> n100 = 4 then (y - 1, 12, 31)
         else let leapyear = (n1 = 3 \<and> (n4 \<noteq> 24 \<or> n100 = 3));
                  md = month_day r1 leapyear
              in (y, fst md, snd md))"

definition new_datetime ::
  "int \<Rightarrow> int \<Rightarrow> int \<Rightarrow> int \<Rightarrow> int \<Rightarrow> int \<Rightarrow> int \<Rightarrow> error + datetime" where
  "new_datetime y m d hh mm ss us =
     (if \<not> (1 \<le> y \<and> y \<le> 9999) then Inl ValueError
      else if \<not> (1 \<le> m \<and> m \<le> 12) then Inl ValueError
      else if \<not> (1 \<le> d \<and> d \<le> days_in_month y m) then Inl ValueError
      else if \<not> (0 \<le> hh \<and> hh \<le> 23) then Inl ValueError
      else if \<not> (0 \<le> mm \<and> mm \<le> 59) then Inl ValueError
      else if \<not> (0 \<le> ss \<and> ss \<le> 59) then Inl ValueError
      else if \<not> (0 \<le> us \<and> us \<le> 999999) then Inl ValueError
      else Inr \<lparr>year = y, month = m, day = d, hour = hh, minute = mm, second = ss,
                microsecond = us\<rparr>)"

definition toordinal :: "datetime \<Rightarrow> int" where
  "toordinal t = ymd2ord (year t) (month t) (day t)"

definition add_hours :: "datetime \<Rightarrow> int \<Rightarrow> error + datetime" where
  \<comment> \<open>\<^verbatim>\<open>t + timedelta(hours=k)\<close>: the sum is normalised to days, seconds of the day and
      microseconds, and the days must be an ordinal of the years 1 to 9999\<close>
  "add_hours t k =
     (let secs = hour t * 3600 + minute t * 60 + second t + k * 3600;
          days = toordinal t + secs div 86400;
          s = secs mod 86400;
          hh = s div 3600; rem = s mod 3600;
          mm = rem div 60; ss = rem mod 60
      in if 0 < days \<and> days \<le> MAXORDINAL
         then case ord2ymd days of (y, m, d) \<Rightarrow>
                Inr \<lparr>year = y, month = m, day = d, hour = hh, minute = mm, second = ss,
                     microsecond = microsecond t\<rparr>
         else Inl OverflowError)"

definition utcfromtimestamp_millis :: "int \<Rightarrow> error + datetime" where
  \<comment> \<open>\<^verbatim>\<open>datetime.utcfromtimestamp(ms / 1000)\<close>. The argument of the source is the float
      nearest to \<open>ms / 1000\<close>; for \<open>0 \<le> ms < 2 * 10^12\<close> (every name that starts with
      \<^verbatim>\<open>16\<close> gives such a value) that float is within 0.12 microseconds of the quotient,
      so its whole seconds are \<open>ms div 1000\<close> and its fraction rounds to
      \<open>(ms mod 1000) * 1000\<close> microseconds. Day 719163 is 1 January 1970.\<close>
  "utcfromtimestamp_millis ms =
     (let t = ms div 1000; us = (ms mod 1000) * 1000;
          days = t div 86400; rem = t mod 86400
      in case ord2ymd (719163 + days) of (y, m, d) \<Rightarrow>
           new_datetime y m d (rem div 3600) (rem mod 3600 div 60) (rem mod 60) us)"

subsection \<open>\<^verbatim>\<open>strftime\<close>\<close>

definition pad2 :: "int \<Rightarrow> string" where
  \<comment> \<open>\<^verbatim>\<open>%02d\<close> of a field in 0..99\<close>
  "pad2 n = [digit_char (n div 10), digit_char (n mod 10)]"

definition pad4 :: "int \<Rightarrow> string" where
  \<comment> \<open>\<^verbatim>\<open>%04d\<close> of a year in 0..9999\<close>
  "pad4 n = [digit_char (n div 1000), digit_char (n div 100 mod 10),
             digit_char (n div 10 mod 10), digit_char (n mod 10)]"

definition pad6 :: "int \<Rightarrow> string" where
  \<comment> \<open>\<^verbatim>\<open>%06d\<close> of a microsecond in 0..999999\<close>
  "pad6 n = [digit_char (n div 100000), digit_char (n div 10000 mod 10),
             digit_char (n div 1000 mod 10), digit_char (n div 100 mod 10),
             digit_char (n div 10 mod 10), digit_char (n mod 10)]"

text \<open>
  \<^verbatim>\<open>datetime.strftime\<close> replaces \<^verbatim>\<open>%f\<close>, \<^verbatim>\<open>%z\<close> and \<^verbatim>\<open>%Z\<close> itself (the last two by
  the empty string for a naive object) and hands the rest to the C library. The conversions
  the notebook writes (\<^verbatim>\<open>%Y %m %d %H %M %S\<close>) and \<^verbatim>\<open>%%\<close> are embedded; \<^verbatim>\<open>%Y\<close> is
  the four-digit year, as on the macOS the notebook runs on (it imports
  \<^verbatim>\<open>osxmetadata\<close>). A format is not always a constant of the notebook: the fallback name
  is built from the directory and file names and then used as a format. What the C
  library prints from any other conversion on is the parameter \<open>libc\<close>, which receives the
  format after the \<^verbatim>\<open>%\<close> sign.
\<close>

type_synonym libc = "string \<Rightarrow> datetime \<Rightarrow> string"

fun strftime :: "libc \<Rightarrow> string \<Rightarrow> datetime \<Rightarrow> string" where
  "strftime libc [] t = []"
| "strftime libc [c] t = (if c = CHR ''%'' then libc [] t else [c])"
| "strftime libc (c # d # fmt) t =
     (if c \<noteq> CHR ''%'' then c # strftime libc (d # fmt) t
      else if d = CHR ''Y'' then pad4 (year t) @ strftime libc fmt t
      else if d = CHR ''m'' then pad2 (month t) @ strftime libc fmt t
      else if d = CHR ''d'' then pad2 (day t) @ strftime libc fmt t
      else if d = CHR ''H'' then pad2 (hour t) @ strftime libc fmt t
      else if d = CHR ''M'' then pad2 (minute t) @ strftime libc fmt t
      else if d = CHR ''S'' then pad2 (second t) @ strftime libc fmt t
      else if d = CHR ''f'' then pad6 (microsecond t) @ strftime libc fmt t
      else if d = CHR ''z'' \<or> d = CHR ''Z'' then strftime libc fmt t
      else if d = CHR ''%'' then CHR ''%'' # strftime libc fmt t
      else libc (d # fmt) t)"

subsection \<open>\<^verbatim>\<open>strptime\<close> with the format \<^verbatim>\<open>%Y%m%d_%H%M%S\<close>\<close>

text \<open>
  \<^verbatim>\<open>_strptime\<close> compiles the format to the regular expression
  \<^verbatim>\<open>(\d\d\d\d)(1[0-2]|0[1-9]|[1-9])(3[0-1]|[1-2]\d|0[1-9]|[1-9]| [1-9])_\<close>
  \<^verbatim>\<open>(2[0-3]|[0-1]\d|\d)([0-5]\d|\d)(6[0-1]|[0-5]\d|\d)\<close>,
  takes the first match at the start of the string in the order of the alternatives
  (backtracking into earlier groups), refuses a match that leaves characters over, and
  builds the object with the constructor. Each group is the list of its possible matches
  at the start of a string, in that order, with the text that follows.
\<close>

definition two :: "(char \<Rightarrow> bool) \<Rightarrow> (char \<Rightarrow> bool) \<Rightarrow> string \<Rightarrow> (int \<times> string) list" where
  "two p q s =
     (case s of a # b # r \<Rightarrow> if p a \<and> q b then [(10 * digit_val a + digit_val b, r)] else []
      | _ \<Rightarrow> [])"

definition one :: "(char \<Rightarrow> bool) \<Rightarrow> string \<Rightarrow> (int \<times> string) list" where
  "one p s = (case s of a # r \<Rightarrow> if p a then [(digit_val a, r)] else [] | _ \<Rightarrow> [])"

definition re_Y :: "string \<Rightarrow> (int \<times> string) list" where
  "re_Y s =
     (case s of a # b # c # d # r \<Rightarrow>
        if is_digit a \<and> is_digit b \<and> is_digit c \<and> is_digit d
        then [(1000 * digit_val a + 100 * digit_val b + 10 * digit_val c + digit_val d, r)]
        else []
      | _ \<Rightarrow> [])"

definition re_m :: "string \<Rightarrow> (int \<times> string) list" where
  "re_m s = two (in_range CHR ''1'' CHR ''1'') (in_range CHR ''0'' CHR ''2'') s
          @ two (in_range CHR ''0'' CHR ''0'') (in_range CHR ''1'' CHR ''9'') s
          @ one (in_range CHR ''1'' CHR ''9'') s"

definition re_d :: "string \<Rightarrow> (int \<times> string) list" where
  "re_d s = two (in_range CHR ''3'' CHR ''3'') (in_range CHR ''0'' CHR ''1'') s
          @ two (in_range CHR ''1'' CHR ''2'') is_digit s
          @ two (in_range CHR ''0'' CHR ''0'') (in_range CHR ''1'' CHR ''9'') s
          @ one (in_range CHR ''1'' CHR ''9'') s
          @ (case s of a # r \<Rightarrow> if a = CHR '' '' then one (in_range CHR ''1'' CHR ''9'') r else []
             | _ \<Rightarrow> [])"

definition re_H :: "string \<Rightarrow> (int \<times> string) list" where
  "re_H s = two (in_range CHR ''2'' CHR ''2'') (in_range CHR ''0'' CHR ''3'') s
          @ two (in_range CHR ''0'' CHR ''1'') is_digit s
          @ one is_digit s"

definition re_M :: "string \<Rightarrow> (int \<times> string) list" where
  "re_M s = two (in_range CHR ''0'' CHR ''5'') is_digit s @ one is_digit s"

definition re_S :: "string \<Rightarrow> (int \<times> string) list" where
  "re_S s = two (in_range CHR ''6'' CHR ''6'') (in_range CHR ''0'' CHR ''1'') s
          @ two (in_range CHR ''0'' CHR ''5'') is_digit s
          @ one is_digit s"

fun first_some :: "('a \<Rightarrow> 'b option) \<Rightarrow> 'a list \<Rightarrow> 'b option" where
  \<comment> \<open>backtracking: the first alternative after which the rest of the expression matches\<close>
  "first_some k [] = None"
| "first_some k (x # xs) = (case k x of Some y \<Rightarrow> Some y | None \<Rightarrow> first_some k xs)"

definition literal :: "char \<Rightarrow> string \<Rightarrow> string list" where
  "literal c s = (case s of a # r \<Rightarrow> if a = c then [r] else [] | _ \<Rightarrow> [])"

definition regex_match :: "string \<Rightarrow> ((int \<times> int \<times> int \<times> int \<times> int \<times> int) \<times> string) option" where
  "regex_match s =
     first_some (\<lambda>(Y, r1).
       first_some (\<lambda>(m, r2).
         first_some (\<lambda>(d, r3).
           first_some (\<lambda>r4.
             first_some (\<lambda>(H, r5).
               first_some (\<lambda>(M, r6).
                 first_some (\<lambda>(S, r7). Some ((Y, m, d, H, M, S), r7))
                   (re_S r6)) (re_M r5)) (re_H r4)) (literal CHR ''_'' r3))
           (re_d r2)) (re_m r1)) (re_Y s)"

definition strptime :: "string \<Rightarrow> error + datetime" where
  "strptime s =
     (case regex_match s of
        None \<Rightarrow> Inl ValueError
      | Some ((Y, m, d, H, M, S), rest) \<Rightarrow>
          if rest \<noteq> [] then Inl ValueError else new_datetime Y m d H M S 0)"

subsection \<open>First pass: the new name of a photo and its copy in the staging folder\<close>

text \<open>
  The body of the loop over the shortlisted photos of one folder. \<open>rename_photo\<close> is the
  part up to the copy: it yields the value of \<^verbatim>\<open>new_name\<close> (\<open>None\<close> is Python's
  \<^verbatim>\<open>None\<close>) and the warnings logged. A \<^verbatim>\<open>datetime\<close> object is always true, so
  \<^verbatim>\<open>if utc_time:\<close> runs exactly when one of the two middle branches was taken.
\<close>

definition localize :: "libc \<Rightarrow> string \<Rightarrow> string \<Rightarrow> datetime \<Rightarrow> error + string" where
  "localize libc current_date name utc_time =
     (case add_hours utc_time 8 of
        Inl e \<Rightarrow> Inl e
      | Inr local_time \<Rightarrow>
          Inr (if strftime libc ''%Y%m%d'' local_time \<noteq> current_date
               then strftime libc (''IMG_'' @ current_date @ ''_120000_'' @ name) local_time
               else strftime libc ''IMG_%Y%m%d_%H%M%S.jpg'' local_time))"

definition rename_photo ::
  "libc \<Rightarrow> string \<Rightarrow> string \<Rightarrow> error + (string option \<times> string list)" where
  "rename_photo libc current_date name =
     (if slice 0 3 name = ''IMG'' then Inr (Some name, [])
      else if slice 0 3 name = ''PXL'' then
        (case strptime (slice 4 19 name) of
           Inl e \<Rightarrow> Inl e
         | Inr utc_time \<Rightarrow>
             (case localize libc current_date name utc_time of
                Inl e \<Rightarrow> Inl e | Inr new_name \<Rightarrow> Inr (Some new_name, [])))
      else if slice 0 2 name = ''16'' then
        (case py_int (slice 0 13 name) of
           None \<Rightarrow> Inl ValueError
         | Some ms \<Rightarrow>
             (case utcfromtimestamp_millis ms of
                Inl e \<Rightarrow> Inl e
              | Inr utc_time \<Rightarrow>
                  (case localize libc current_date name utc_time of
                     Inl e \<Rightarrow> Inl e | Inr new_name \<Rightarrow> Inr (Some new_name, []))))
      else Inr (None, [name @ '' is not one of the known file naming schemes'']))"

text \<open>
  The staging folder \<^verbatim>\<open>img/tmp\<close> is a flat directory: a map from file names to file
  contents. \<^verbatim>\<open>shutil.copy(photo.path, f'{TMP_FOLDER}/{new_name}')\<close> writes the formatted
  name, so \<^verbatim>\<open>None\<close> is written as the four letters \<^verbatim>\<open>None\<close>; an existing file of
  that name is overwritten, and a name with a path separator points into a directory that
  does not exist, which is an \<^verbatim>\<open>OSError\<close>.
\<close>

record 'f staging =
  tmp :: "string \<rightharpoonup> 'f"
  warnings :: "string list"

definition fstring :: "string option \<Rightarrow> string" where
  "fstring v = (case v of None \<Rightarrow> ''None'' | Some s \<Rightarrow> s)"

definition shutil_copy :: "'f \<Rightarrow> string \<Rightarrow> 'f staging \<Rightarrow> error + 'f staging" where
  "shutil_copy content dst st =
     (if CHR ''/'' \<in> set dst then Inl OSError
      else Inr (st\<lparr>tmp := (tmp st)(dst \<mapsto> content)\<rparr>))"

definition first_pass_photo ::
  "libc \<Rightarrow> string \<Rightarrow> string \<times> 'f \<Rightarrow> 'f staging \<Rightarrow> error + 'f staging" where
  "first_pass_photo libc current_date photo st =
     (case rename_photo libc current_date (fst photo) of
        Inl e \<Rightarrow> Inl e
      | Inr (new_name, logged) \<Rightarrow>
          shutil_copy (snd photo) (fstring new_name) (st\<lparr>warnings := warnings st @ logged\<rparr>))"

fun first_pass ::
  "libc \<Rightarrow> string \<Rightarrow> (string \<times> 'f) list \<Rightarrow> 'f staging \<Rightarrow> error + 'f staging" where
  \<comment> \<open>the loop over the photos of one folder; an exception ends it\<close>
  "first_pass libc current_date [] st = Inr st"
| "first_pass libc current_date (photo # photos) st =
     (case first_pass_photo libc current_date photo st of
        Inl e \<Rightarrow> Inl e
      | Inr st' \<Rightarrow> first_pass libc current_date photos st')"

subsection \<open>Second pass: the time of the name written into the EXIF block\<close>

text \<open>
  Decoding and encoding an EXIF block is the work of \<^verbatim>\<open>piexif\<close>; a block is given by
  what \<^verbatim>\<open>piexif.load\<close> makes of it: the dictionary it decodes to (the \<^verbatim>\<open>Exif\<close> part,
  from tag numbers to byte strings, and the other parts), or \<open>Malformed\<close> when
  \<^verbatim>\<open>piexif.load\<close> raises on it. \<^verbatim>\<open>piexif.dump\<close> encodes a dictionary back.
  \<open>info_exif\<close> is \<^verbatim>\<open>im.info.get("exif")\<close>: \<open>None\<close> for an image without a block.
\<close>

record exif_dict =
  Exif :: "nat \<rightharpoonup> string"
  other_parts :: "string \<rightharpoonup> (nat \<rightharpoonup> string)"

datatype exif_block = Block exif_dict | Malformed

record 'p image_file =
  pixels :: 'p
  info_exif :: "exif_block option"

datatype write_result = Written | AlreadyPresent

definition EXIF_DATETIME_TAG :: nat where
  "EXIF_DATETIME_TAG = 36867"

definition info_getitem :: "'p image_file \<Rightarrow> error + exif_block" where
  \<comment> \<open>\<^verbatim>\<open>im.info["exif"]\<close>\<close>
  "info_getitem im = (case info_exif im of None \<Rightarrow> Inl KeyError | Some b \<Rightarrow> Inr b)"

definition piexif_load :: "exif_block option \<Rightarrow> error + exif_dict" where
  \<comment> \<open>\<^verbatim>\<open>piexif.load(None)\<close> raises \<^verbatim>\<open>TypeError\<close> (\<^verbatim>\<open>None\<close> is not subscriptable)\<close>
  "piexif_load v =
     (case v of None \<Rightarrow> Inl TypeError
      | Some Malformed \<Rightarrow> Inl DecodeError
      | Some (Block d) \<Rightarrow> Inr d)"

definition piexif_dump :: "exif_dict \<Rightarrow> exif_block" where
  "piexif_dump d = Block d"

definition truthy :: "string option \<Rightarrow> bool" where
  \<comment> \<open>the truth value of \<^verbatim>\<open>d.get(tag)\<close>: \<^verbatim>\<open>None\<close> and the empty byte string are false\<close>
  "truthy v = (case v of None \<Rightarrow> False | Some b \<Rightarrow> b \<noteq> [])"

definition load_exif :: "'p image_file \<Rightarrow> error + exif_dict" where
  \<comment> \<open>the first load, outside the \<^verbatim>\<open>try\<close>, then the load inside it, whose
      \<^verbatim>\<open>TypeError\<close> alone is caught\<close>
  "load_exif im =
     (case info_getitem im of
        Inl e \<Rightarrow> Inl e
      | Inr b \<Rightarrow>
          (case piexif_load (Some b) of
             Inl e \<Rightarrow> Inl e
           | Inr exif_dict0 \<Rightarrow>
               (case piexif_load (info_exif im) of
                  Inl e \<Rightarrow> if e = TypeError
                           then Inr \<lparr>Exif = Map.empty, other_parts = Map.empty\<rparr>
                           else Inl e
                | Inr exif_dict \<Rightarrow> Inr exif_dict)))"

definition second_pass_photo ::
  "libc \<Rightarrow> ('p \<Rightarrow> 'p) \<Rightarrow> string \<Rightarrow> 'p image_file \<Rightarrow> error + (write_result \<times> 'p image_file)" where
  \<comment> \<open>the body of the loop over \<^verbatim>\<open>img/tmp\<close>, up to the move into \<^verbatim>\<open>img/Final\<close>, which
      takes the file as this function leaves it. \<open>jpeg\<close> is what decoding the pixel data
      and encoding it again with \<^verbatim>\<open>quality=100, subsampling=0\<close> makes of it. The result
      says whether \<^verbatim>\<open>im.save\<close> ran.\<close>
  "second_pass_photo libc jpeg name im =
     (case load_exif im of
        Inl e \<Rightarrow> Inl e
      | Inr exif_dict \<Rightarrow>
          (case strptime (slice 4 19 name) of
             Inl e \<Rightarrow> Inl e
           | Inr local_time \<Rightarrow>
               let local_time_bytestr = strftime libc ''%Y:%m:%d %H:%M:%S'' local_time
               in if \<not> truthy (Exif exif_dict EXIF_DATETIME_TAG)
                  then Inr (Written,
                         \<lparr>pixels = jpeg (pixels im),
                          info_exif = Some (piexif_dump
                            (exif_dict\<lparr>Exif := (Exif exif_dict)
                               (EXIF_DATETIME_TAG \<mapsto> local_time_bytestr)\<rparr>))\<rparr>)
                  else Inr (AlreadyPresent, im)))"

definition datetime_tag :: "'p image_file \<Rightarrow> error + string option" where
  \<comment> \<open>the tag as the last cell of the notebook reads it from a file of \<^verbatim>\<open>img/Final\<close>\<close>
  "datetime_tag im =
     (case info_getitem im of
        Inl e \<Rightarrow> Inl e
      | Inr b \<Rightarrow>
          (case piexif_load (Some b) of
             Inl e \<Rightarrow> Inl e
           | Inr exif_dict \<Rightarrow> Inr (Exif exif_dict EXIF_DATETIME_TAG)))"

definition seconds_resolution :: "datetime \<Rightarrow> int \<times> int \<times> int \<times> int \<times> int \<times> int" where
  \<comment> \<open>a timestamp as the formats of the notebook show it: without the microseconds\<close>
  "seconds_resolution t = (year t, month t, day t, hour t, minute t, second t)"

subsection \<open>Predicates of the statements\<close>

definition month_day_ok :: "int \<Rightarrow> bool \<Rightarrow> bool" where
  \<comment> \<open>what \<^verbatim>\<open>_ord2ymd\<close> asserts of the month and day it returns\<close>
  "month_day_ok n leap = (case month_day n leap of (m, d) \<Rightarrow>
     1 \<le> m \<and> m \<le> 12 \<and> 1 \<le> d \<and> d \<le> (if m = 2 \<and> leap then 29 else DAYS_IN_MONTH ! nat m))"

definition filename_tag_agree :: "libc \<Rightarrow> string \<Rightarrow> 'p image_file \<Rightarrow> bool" where
  \<comment> \<open>the tag of the file is the time that positions 4 to 18 of its name give, written
      as \<^verbatim>\<open>YYYY:MM:DD HH:MM:SS\<close>\<close>
  "filename_tag_agree libc name im =
     (case strptime (slice 4 19 name) of
        Inl e \<Rightarrow> False
      | Inr t \<Rightarrow> datetime_tag im = Inr (Some (strftime libc ''%Y:%m:%d %H:%M:%S'' t)))"

section \<open>Evaluation lemmas\<close>

lemma strptime_example: "strptime ''20221125_040253'' =
    Inr \<lparr>year = 2022, month = 11, day = 25, hour = 4, minute = 2, second = 53, microsecond = 0\<rparr>"
  by code_simp

lemma add_hours_example:
  "add_hours \<lparr>year = 2022, month = 11, day = 25, hour = 4, minute = 2, second = 53,
      microsecond = 0\<rparr> 8 =
    Inr \<lparr>year = 2022, month = 11, day = 25, hour = 12, minute = 2, second = 53, microsecond = 0\<rparr>"
  by code_simp

lemma strftime_date_example:
  "strftime libc ''%Y%m%d'' \<lparr>year = 2022, month = 11, day = 25, hour = 12, minute = 2,
      second = 53, microsecond = 0\<rparr> = ''20221125''"
  by code_simp

lemma strftime_name_example:
  "strftime libc ''IMG_%Y%m%d_%H%M%S.jpg'' \<lparr>year = 2022, month = 11, day = 25, hour = 12,
      minute = 2, second = 53, microsecond = 0\<rparr> = ''IMG_20221125_120253.jpg''"
  by code_simp

lemma localize_example:
  "localize libc ''20221125'' name \<lparr>year = 2022, month = 11, day = 25, hour = 4, minute = 2,
      second = 53, microsecond = 0\<rparr> = Inr ''IMG_20221125_120253.jpg''"
  unfolding localize_def add_hours_example
  by (simp del: strftime.simps add: strftime_date_example strftime_name_example)

section \<open>Digits, and parsing what \<^verbatim>\<open>strftime\<close> printed\<close>

lemma of_char_digit_char: "0 \<le> n \<Longrightarrow> n < 10 \<Longrightarrow> (of_char (digit_char n) :: int) = 48 + n"
  by (simp add: digit_char_def)

lemma is_digit_digit_char: "0 \<le> n \<Longrightarrow> n < 10 \<Longrightarrow> is_digit (digit_char n)"
  by (simp add: is_digit_def of_char_digit_char)

lemma digit_val_digit_char: "0 \<le> n \<Longrightarrow> n < 10 \<Longrightarrow> digit_val (digit_char n) = n"
  by (simp add: digit_val_def of_char_digit_char)

lemma in_range_digit_char:
  "0 \<le> n \<Longrightarrow> n < 10 \<Longrightarrow> in_range lo hi (digit_char n) \<longleftrightarrow> of_char lo \<le> 48 + n \<and> 48 + n \<le> of_char hi"
  by (simp add: in_range_def of_char_digit_char)

lemma digits_of_field:
  fixes n :: int
  assumes "0 \<le> n" "n < 100"
  shows "0 \<le> n div 10" "n div 10 < 10" "0 \<le> n mod 10" "n mod 10 < 10"
  using assms by auto

lemma two_pad2:
  assumes "0 \<le> n" "n < 100"
  shows "two p q (pad2 n @ r) =
    (if p (digit_char (n div 10)) \<and> q (digit_char (n mod 10)) then [(n, r)] else [])"
  using digits_of_field [OF assms]
  by (simp add: two_def pad2_def digit_val_digit_char)

lemma re_m_pad2:
  assumes "1 \<le> m" "m \<le> 12"
  shows "\<exists>xs. re_m (pad2 m @ r) = (m, r) # xs"
proof -
  have b: "0 \<le> m" "m < 100" using assms by auto
  note a = digits_of_field [OF b]
  have "m div 10 = 0 \<and> 1 \<le> m mod 10 \<or> m div 10 = 1 \<and> m mod 10 \<le> 2"
    using assms by presburger
  then show ?thesis
    using a b by (auto simp add: re_m_def two_pad2 in_range_digit_char)
qed

lemma re_d_pad2:
  assumes "1 \<le> d" "d \<le> 31"
  shows "\<exists>xs. re_d (pad2 d @ r) = (d, r) # xs"
proof -
  have b: "0 \<le> d" "d < 100" using assms by auto
  note a = digits_of_field [OF b]
  have "d div 10 = 0 \<and> 1 \<le> d mod 10 \<or> d div 10 = 1 \<or> d div 10 = 2
      \<or> d div 10 = 3 \<and> d mod 10 \<le> 1"
    using assms by presburger
  then show ?thesis
    using a b by (auto simp add: re_d_def two_pad2 in_range_digit_char is_digit_digit_char)
qed

lemma re_H_pad2:
  assumes "0 \<le> h" "h \<le> 23"
  shows "\<exists>xs. re_H (pad2 h @ r) = (h, r) # xs"
proof -
  have b: "0 \<le> h" "h < 100" using assms by auto
  note a = digits_of_field [OF b]
  have "h div 10 = 0 \<or> h div 10 = 1 \<or> h div 10 = 2 \<and> h mod 10 \<le> 3"
    using assms by presburger
  then show ?thesis
    using a b by (auto simp add: re_H_def two_pad2 in_range_digit_char is_digit_digit_char)
qed

lemma re_M_pad2:
  assumes "0 \<le> n" "n \<le> 59"
  shows "\<exists>xs. re_M (pad2 n @ r) = (n, r) # xs"
proof -
  have b: "0 \<le> n" "n < 100" using assms by auto
  note a = digits_of_field [OF b]
  have "n div 10 \<le> 5"
    using assms by presburger
  then show ?thesis
    using a b by (auto simp add: re_M_def two_pad2 in_range_digit_char is_digit_digit_char)
qed

lemma re_S_pad2:
  assumes "0 \<le> n" "n \<le> 59"
  shows "\<exists>xs. re_S (pad2 n @ r) = (n, r) # xs"
proof -
  have b: "0 \<le> n" "n < 100" using assms by auto
  note a = digits_of_field [OF b]
  have "n div 10 \<le> 5"
    using assms by presburger
  then show ?thesis
    using a b by (auto simp add: re_S_def two_pad2 in_range_digit_char is_digit_digit_char)
qed

lemma year_digits:
  fixes y :: int
  assumes "0 \<le> y" "y \<le> 9999"
  shows "0 \<le> y div 1000 \<and> y div 1000 < 10 \<and> 0 \<le> y div 100 mod 10 \<and> y div 100 mod 10 < 10
    \<and> 0 \<le> y div 10 mod 10 \<and> y div 10 mod 10 < 10 \<and> 0 \<le> y mod 10 \<and> y mod 10 < 10
    \<and> 1000 * (y div 1000) + 100 * (y div 100 mod 10) + 10 * (y div 10 mod 10) + y mod 10 = y"
proof -
  have e1: "y = 10 * (y div 10) + y mod 10"
    by simp
  have "y div 10 div 10 = y div 100"
    by (simp add: zdiv_zmult2_eq [symmetric])
  then have e2: "y div 10 = 10 * (y div 100) + y div 10 mod 10"
    using mult_div_mod_eq [of 10 "y div 10"] by simp
  have "y div 100 div 10 = y div 1000"
    by (simp add: zdiv_zmult2_eq [symmetric])
  then have e3: "y div 100 = 10 * (y div 1000) + y div 100 mod 10"
    using mult_div_mod_eq [of 10 "y div 100"] by simp
  have b: "0 \<le> y mod 10" "y mod 10 < 10" "0 \<le> y div 10 mod 10" "y div 10 mod 10 < 10"
    "0 \<le> y div 100 mod 10" "y div 100 mod 10 < 10"
    by simp_all
  show ?thesis
    using assms e1 e2 e3 b by linarith
qed

lemma re_Y_pad4:
  assumes "0 \<le> y" "y \<le> 9999"
  shows "re_Y (pad4 y @ r) = [(y, r)]"
  using year_digits [OF assms]
  by (simp add: re_Y_def pad4_def is_digit_digit_char digit_val_digit_char)

lemma first_some_hd: "\<exists>xs. alts = x # xs \<Longrightarrow> k x = Some v \<Longrightarrow> first_some k alts = Some v"
  by auto

lemma days_in_month_le_31: "1 \<le> m \<Longrightarrow> m \<le> 12 \<Longrightarrow> days_in_month y m \<le> 31"
proof -
  assume "1 \<le> m" "m \<le> 12"
  then have "m = 1 \<or> m = 2 \<or> m = 3 \<or> m = 4 \<or> m = 5 \<or> m = 6 \<or> m = 7 \<or> m = 8 \<or> m = 9
      \<or> m = 10 \<or> m = 11 \<or> m = 12" by arith
  then show ?thesis
    by (auto simp add: days_in_month_def DAYS_IN_MONTH_def)
qed

lemma regex_match_rendered:
  assumes "1 \<le> y" "y \<le> 9999" "1 \<le> m" "m \<le> 12" "1 \<le> d" "d \<le> 31"
    "0 \<le> hh" "hh \<le> 23" "0 \<le> mm" "mm \<le> 59" "0 \<le> ss" "ss \<le> 59"
  shows "regex_match (pad4 y @ pad2 m @ pad2 d @ CHR ''_'' # pad2 hh @ pad2 mm @ pad2 ss @ r)
    = Some ((y, m, d, hh, mm, ss), r)"
proof -
  have S: "first_some (\<lambda>(S, r7). Some ((y, m, d, hh, mm, S), r7)) (re_S (pad2 ss @ r))
      = Some ((y, m, d, hh, mm, ss), r)"
    by (rule first_some_hd [OF re_S_pad2]) (use assms in simp_all)
  have M: "first_some (\<lambda>(M, r6). first_some (\<lambda>(S, r7). Some ((y, m, d, hh, M, S), r7)) (re_S r6))
      (re_M (pad2 mm @ pad2 ss @ r)) = Some ((y, m, d, hh, mm, ss), r)"
    by (rule first_some_hd [OF re_M_pad2]) (use assms S in simp_all)
  have H: "first_some (\<lambda>(H, r5). first_some (\<lambda>(M, r6).
      first_some (\<lambda>(S, r7). Some ((y, m, d, H, M, S), r7)) (re_S r6)) (re_M r5))
      (re_H (pad2 hh @ pad2 mm @ pad2 ss @ r)) = Some ((y, m, d, hh, mm, ss), r)"
    by (rule first_some_hd [OF re_H_pad2]) (use assms M in simp_all)
  have D: "first_some (\<lambda>(d, r3). first_some (\<lambda>r4. first_some (\<lambda>(H, r5). first_some (\<lambda>(M, r6).
      first_some (\<lambda>(S, r7). Some ((y, m, d, H, M, S), r7)) (re_S r6)) (re_M r5)) (re_H r4))
        (literal CHR ''_'' r3))
      (re_d (pad2 d @ CHR ''_'' # pad2 hh @ pad2 mm @ pad2 ss @ r)) = Some ((y, m, d, hh, mm, ss), r)"
    by (rule first_some_hd [OF re_d_pad2]) (use assms H in \<open>simp_all add: literal_def\<close>)
  have Mo: "first_some (\<lambda>(m, r2). first_some (\<lambda>(d, r3). first_some (\<lambda>r4. first_some (\<lambda>(H, r5).
      first_some (\<lambda>(M, r6).
      first_some (\<lambda>(S, r7). Some ((y, m, d, H, M, S), r7)) (re_S r6)) (re_M r5)) (re_H r4))
        (literal CHR ''_'' r3)) (re_d r2))
      (re_m (pad2 m @ pad2 d @ CHR ''_'' # pad2 hh @ pad2 mm @ pad2 ss @ r))
       = Some ((y, m, d, hh, mm, ss), r)"
    by (rule first_some_hd [OF re_m_pad2]) (use assms D in simp_all)
  show ?thesis
    unfolding regex_match_def using assms Mo by (simp add: re_Y_pad4)
qed

lemma strptime_rendered:
  assumes "new_datetime y m d hh mm ss 0 = Inr t"
  shows "strptime (pad4 y @ pad2 m @ pad2 d @ CHR ''_'' # pad2 hh @ pad2 mm @ pad2 ss) = Inr t"
proof -
  have v: "1 \<le> y" "y \<le> 9999" "1 \<le> m" "m \<le> 12" "1 \<le> d" "d \<le> days_in_month y m"
    "0 \<le> hh" "hh \<le> 23" "0 \<le> mm" "mm \<le> 59" "0 \<le> ss" "ss \<le> 59"
    using assms by (auto simp add: new_datetime_def split: if_splits)
  have "d \<le> 31" using days_in_month_le_31 [of m y] v by simp
  then have "regex_match (pad4 y @ pad2 m @ pad2 d @ CHR ''_'' # pad2 hh @ pad2 mm @ pad2 ss @ [])
    = Some ((y, m, d, hh, mm, ss), [])"
    using v by (intro regex_match_rendered) simp_all
  then show ?thesis
    using assms by (simp add: strptime_def)
qed

section \<open>The calendar: \<^verbatim>\<open>_ord2ymd\<close> returns a date of the years 1 to 9999\<close>

lemma month_day_table: "list_all (\<lambda>n. month_day_ok n True \<and> month_day_ok n False) [0..364]"
  by code_simp

lemma month_day_valid:
  assumes "0 \<le> n" "n \<le> 364"
  shows "month_day_ok n leap"
proof -
  have "n \<in> set [0..364]" using assms by simp
  then have "month_day_ok n True \<and> month_day_ok n False"
    using month_day_table unfolding list_all_iff by blast
  then show ?thesis by (cases leap) simp_all
qed

lemma mod_eq_0_bounded:
  fixes x k :: int
  assumes "0 < x" "x \<le> k"
  shows "x mod k = 0 \<longleftrightarrow> x = k"
proof (cases "x = k")
  case True
  then show ?thesis by simp
next
  case False
  then have "x mod k = x" using assms by simp
  then show ?thesis using assms False by simp
qed

lemma leap_of_counts:
  fixes n400 n100 n4 n1 :: int
  assumes "0 \<le> n100" "n100 \<le> 3" "0 \<le> n4" "n4 \<le> 24" "0 \<le> n1" "n1 \<le> 3"
  shows "is_leap (n400 * 400 + 1 + n100 * 100 + n4 * 4 + n1) \<longleftrightarrow> n1 = 3 \<and> (n4 \<noteq> 24 \<or> n100 = 3)"
proof -
  let ?y = "n400 * 400 + 1 + n100 * 100 + n4 * 4 + n1"
  let ?a = "n1 + 1" and ?b = "n4 * 4 + n1 + 1" and ?c = "n100 * 100 + n4 * 4 + n1 + 1"
  have e4: "?y = ?a + (100 * n400 + 25 * n100 + n4) * 4"
    by simp
  have e100: "?y = ?b + (4 * n400 + n100) * 100"
    by simp
  have e400: "?y = ?c + n400 * 400"
    by simp
  have "?y mod 4 = ?a mod 4"
    by (subst e4) (rule mod_mult_self1)
  moreover have "?a mod 4 = 0 \<longleftrightarrow> ?a = 4"
    using assms by (intro mod_eq_0_bounded) linarith+
  moreover have "?a = 4 \<longleftrightarrow> n1 = 3"
    by linarith
  ultimately have m4: "?y mod 4 = 0 \<longleftrightarrow> n1 = 3"
    by (simp only:)
  have "?y mod 100 = ?b mod 100"
    by (subst e100) (rule mod_mult_self1)
  moreover have "?b mod 100 = 0 \<longleftrightarrow> ?b = 100"
    using assms by (intro mod_eq_0_bounded) linarith+
  moreover have "?b = 100 \<longleftrightarrow> n4 = 24 \<and> n1 = 3"
    using assms by linarith
  ultimately have m100: "?y mod 100 = 0 \<longleftrightarrow> n4 = 24 \<and> n1 = 3"
    by (simp only:)
  have "?y mod 400 = ?c mod 400"
    by (subst e400) (rule mod_mult_self1)
  moreover have "?c mod 400 = 0 \<longleftrightarrow> ?c = 400"
    using assms by (intro mod_eq_0_bounded) linarith+
  moreover have "?c = 400 \<longleftrightarrow> n100 = 3 \<and> n4 = 24 \<and> n1 = 3"
    using assms by linarith
  ultimately have m400: "?y mod 400 = 0 \<longleftrightarrow> n100 = 3 \<and> n4 = 24 \<and> n1 = 3"
    by (simp only:)
  show ?thesis
    unfolding is_leap_def m4 m100 m400 by blast
qed

lemma ord2ymd_valid:
  assumes "1 \<le> n0" "n0 \<le> 3652059" "ord2ymd n0 = (y, m, d)"
  shows "1 \<le> y \<and> y \<le> 9999 \<and> 1 \<le> m \<and> m \<le> 12 \<and> 1 \<le> d \<and> d \<le> days_in_month y m"
proof -
  define n where "n = n0 - 1"
  define n400 where "n400 = n div 146097"
  define r400 where "r400 = n mod 146097"
  define n100 where "n100 = r400 div 36524"
  define r100 where "r100 = r400 mod 36524"
  define n4 where "n4 = r100 div 1461"
  define r4 where "r4 = r100 mod 1461"
  define n1 where "n1 = r4 div 365"
  define r1 where "r1 = r4 mod 365"
  define y0 where "y0 = n400 * 400 + 1 + n100 * 100 + n4 * 4 + n1"
  have n: "0 \<le> n" "n \<le> 3652058"
    using assms by (simp_all add: n_def)
  have d400: "n = 146097 * n400 + r400" "0 \<le> r400" "r400 < 146097" "0 \<le> n400"
    using n by (simp_all add: n400_def r400_def)
  have d100: "r400 = 36524 * n100 + r100" "0 \<le> r100" "r100 < 36524" "0 \<le> n100"
    using d400 by (simp_all add: n100_def r100_def)
  have d4: "r100 = 1461 * n4 + r4" "0 \<le> r4" "r4 < 1461" "0 \<le> n4"
    using d100 by (simp_all add: n4_def r4_def)
  have d1: "r4 = 365 * n1 + r1" "0 \<le> r1" "r1 < 365" "0 \<le> n1"
    using d4 by (simp_all add: n1_def r1_def)
  have b100: "n100 \<le> 4" using d400 d100 by linarith
  have b4: "n4 \<le> 24" using d100 d4 by linarith
  have b1: "n1 \<le> 4" using d4 d1 by linarith
  have b400: "n400 \<le> 24" using n d400 by linarith
  have ord: "ord2ymd n0 =
    (if n1 = 4 \<or> n100 = 4 then (y0 - 1, 12, 31)
     else (y0, fst (month_day r1 (n1 = 3 \<and> (n4 \<noteq> 24 \<or> n100 = 3))),
               snd (month_day r1 (n1 = 3 \<and> (n4 \<noteq> 24 \<or> n100 = 3)))))"
    by (simp add: ord2ymd_def Let_def n_def n400_def r400_def n100_def r100_def n4_def
        r4_def n1_def r1_def y0_def)
  have ylow: "1 \<le> y0" using d400 d100 d4 d1 by (simp add: y0_def)
  have yhigh: "y0 - 1 \<le> 9999"
  proof (cases "n400 \<le> 23")
    case True
    then show ?thesis using b100 b4 b1 by (simp add: y0_def)
  next
    case False
    then have "n400 = 24" using b400 by simp
    then have "r400 \<le> 145730" using n d400 by linarith
    then show ?thesis using \<open>n400 = 24\<close> d100 d4 d1 b100 b4 b1 unfolding y0_def by linarith
  qed
  show ?thesis
  proof (cases "n1 = 4 \<or> n100 = 4")
    case True
    then have r: "y = y0 - 1" "m = 12" "d = 31"
      using assms(3) ord by simp_all
    have "1 \<le> y0 - 1" using True d400 d100 d4 d1 by (auto simp add: y0_def)
    then show ?thesis using r yhigh
      by (simp add: days_in_month_def DAYS_IN_MONTH_def)
  next
    case False
    then have c: "n1 \<le> 3" "n100 \<le> 3" using b1 b100 by auto
    define lp where "lp \<longleftrightarrow> n1 = 3 \<and> (n4 \<noteq> 24 \<or> n100 = 3)"
    obtain m' d' where md': "month_day r1 lp = (m', d')"
      by (cases "month_day r1 lp")
    have r: "y = y0" "m = m'" "d = d'"
      using assms(3) ord False md' by (simp_all add: lp_def)
    have leap: "is_leap y0 \<longleftrightarrow> lp"
      unfolding y0_def lp_def using leap_of_counts d100 d4 d1 b4 c by simp
    have "month_day_ok r1 lp"
      using month_day_valid d1 by simp
    then have md: "1 \<le> m \<and> m \<le> 12 \<and> 1 \<le> d \<and> d \<le> days_in_month y m"
      unfolding month_day_ok_def md' r days_in_month_def leap by simp
    have "y0 \<le> 9999"
    proof (cases "n400 \<le> 23")
      case True
      then show ?thesis using c b4 by (simp add: y0_def)
    next
      case False
      then have "n400 = 24" using b400 by simp
      then have "r400 \<le> 145730" using n d400 by linarith
      then show ?thesis using \<open>n400 = 24\<close> d100 d4 d1 c b4 unfolding y0_def by linarith
    qed
    then show ?thesis using md ylow r by simp
  qed
qed

section \<open>What \<^verbatim>\<open>strftime\<close> prints for the formats of the notebook\<close>

lemma strftime_stamp:
  "strftime libc ''%Y%m%d_%H%M%S'' t =
     pad4 (year t) @ pad2 (month t) @ pad2 (day t) @ CHR ''_'' # pad2 (hour t) @ pad2 (minute t)
       @ pad2 (second t)"
  by simp

lemma strftime_name:
  "strftime libc ''IMG_%Y%m%d_%H%M%S.jpg'' t =
     ''IMG_'' @ (pad4 (year t) @ pad2 (month t) @ pad2 (day t) @ CHR ''_'' # pad2 (hour t)
       @ pad2 (minute t) @ pad2 (second t)) @ ''.jpg''"
  by simp

lemma strftime_tag:
  "strftime libc ''%Y:%m:%d %H:%M:%S'' t =
     pad4 (year t) @ CHR '':'' # pad2 (month t) @ CHR '':'' # pad2 (day t) @ CHR '' '' #
       pad2 (hour t) @ CHR '':'' # pad2 (minute t) @ CHR '':'' # pad2 (second t)"
  by simp

lemma length_stamp:
  "length (pad4 y @ pad2 m @ pad2 d @ CHR ''_'' # pad2 hh @ pad2 mm @ pad2 ss) = 15"
  by (simp add: pad4_def pad2_def)

lemma slice_name:
  assumes "length stamp = 15"
  shows "slice 4 19 (''IMG_'' @ stamp @ rest) = stamp"
  using assms by (simp add: slice_def)

lemma time_of_day:
  fixes secs :: int
  defines "s \<equiv> secs mod 86400"
  shows "0 \<le> s div 3600 \<and> s div 3600 \<le> 23 \<and> 0 \<le> s mod 3600 div 60 \<and> s mod 3600 div 60 \<le> 59
    \<and> 0 \<le> s mod 3600 mod 60 \<and> s mod 3600 mod 60 \<le> 59"
proof -
  have s: "0 \<le> s" "s < 86400" by (simp_all add: s_def)
  have "s = 3600 * (s div 3600) + s mod 3600" "0 \<le> s mod 3600" "s mod 3600 < 3600"
    by simp_all
  then have h: "0 \<le> s div 3600" "s div 3600 \<le> 23"
    using s by linarith+
  have "s mod 3600 = 60 * (s mod 3600 div 60) + s mod 3600 mod 60" "0 \<le> s mod 3600 mod 60"
    "s mod 3600 mod 60 < 60" "0 \<le> s mod 3600" "s mod 3600 < 3600"
    by simp_all
  then have m: "0 \<le> s mod 3600 div 60" "s mod 3600 div 60 \<le> 59"
    by linarith+
  show ?thesis using h m by simp
qed

lemma add_hours_valid:
  assumes "add_hours t k = Inr t'"
  shows "new_datetime (year t') (month t') (day t') (hour t') (minute t') (second t') 0
    = Inr (t'\<lparr>microsecond := 0\<rparr>)"
proof -
  define secs where "secs = hour t * 3600 + minute t * 60 + second t + k * 3600"
  define days where "days = toordinal t + secs div 86400"
  obtain y m d where o: "ord2ymd days = (y, m, d)"
    by (cases "ord2ymd days") auto
  have r: "0 < days \<and> days \<le> MAXORDINAL"
    and t': "t' = \<lparr>year = y, month = m, day = d, hour = secs mod 86400 div 3600,
       minute = secs mod 86400 mod 3600 div 60, second = secs mod 86400 mod 3600 mod 60,
       microsecond = microsecond t\<rparr>"
    using assms o unfolding add_hours_def Let_def secs_def [symmetric] days_def [symmetric]
    by (auto split: if_splits)
  have "1 \<le> days" "days \<le> 3652059" using r by (simp_all add: MAXORDINAL_def)
  from ord2ymd_valid [OF this o] time_of_day [of secs]
  show ?thesis
    by (simp add: new_datetime_def t')
qed


section \<open>Second pass: the result of one file\<close>

lemma tag_not_empty: "strftime libc ''%Y:%m:%d %H:%M:%S'' t \<noteq> []"
  by (simp add: pad4_def)


lemma second_pass_result:
  assumes "second_pass_photo libc jpeg name im = Inr (r, im')"
  shows "\<exists>exif_dict t. info_exif im = Some (Block exif_dict)
    \<and> strptime (slice 4 19 name) = Inr t
    \<and> (if truthy (Exif exif_dict EXIF_DATETIME_TAG) then r = AlreadyPresent \<and> im' = im
       else r = Written \<and>
         im' = \<lparr>pixels = jpeg (pixels im), info_exif = Some (Block (exif_dict\<lparr>Exif := (Exif exif_dict)
           (EXIF_DATETIME_TAG \<mapsto> strftime libc ''%Y:%m:%d %H:%M:%S'' t)\<rparr>))\<rparr>)"
  using assms
  by (auto simp add: second_pass_photo_def load_exif_def info_getitem_def piexif_load_def
      piexif_dump_def Let_def simp del: strftime.simps
      split: option.splits exif_block.splits sum.splits if_splits)

lemma second_pass_populated:
  assumes "info_exif im = Some (Block exif_dict)" and "truthy (Exif exif_dict EXIF_DATETIME_TAG)"
    and "strptime (slice 4 19 name) = Inr t"
  shows "second_pass_photo libc jpeg name im = Inr (AlreadyPresent, im)"
  using assms
  by (simp add: second_pass_photo_def load_exif_def info_getitem_def piexif_load_def
      del: strftime.simps)


lemma name_example_slice: "slice 4 19 ''IMG_20221121_230114.jpg'' = ''20221121_230114''"
  by (simp add: slice_def)

lemma strptime_example_camera: "strptime ''20221121_230114'' =
    Inr \<lparr>year = 2022, month = 11, day = 21, hour = 23, minute = 1, second = 14, microsecond = 0\<rparr>"
  by code_simp

lemma strftime_tag_example:
  "strftime libc ''%Y:%m:%d %H:%M:%S'' \<lparr>year = 2022, month = 11, day = 21, hour = 23,
      minute = 1, second = 14, microsecond = 0\<rparr> = ''2022:11:21 23:01:14''"
  by code_simp

lemma second_pass_example_present:
  "second_pass_photo libc jpeg ''IMG_20221121_230114.jpg''
     \<lparr>pixels = p, info_exif = Some (Block \<lparr>Exif = [36867 \<mapsto> ''2022:11:21 22:01:14''],
        other_parts = Map.empty\<rparr>)\<rparr> =
   Inr (AlreadyPresent,
     \<lparr>pixels = p, info_exif = Some (Block \<lparr>Exif = [36867 \<mapsto> ''2022:11:21 22:01:14''],
        other_parts = Map.empty\<rparr>)\<rparr>)"
  by (simp add: second_pass_photo_def load_exif_def info_getitem_def piexif_load_def
      truthy_def EXIF_DATETIME_TAG_def name_example_slice strptime_example_camera
      del: strftime.simps)

lemma second_pass_example_absent:
  "second_pass_photo libc jpeg ''IMG_20221121_230114.jpg''
     \<lparr>pixels = p, info_exif = Some (Block \<lparr>Exif = Map.empty, other_parts = Map.empty\<rparr>)\<rparr> =
   Inr (Written,
     \<lparr>pixels = jpeg p, info_exif = Some (Block \<lparr>Exif = [36867 \<mapsto> ''2022:11:21 23:01:14''],
        other_parts = Map.empty\<rparr>)\<rparr>)"
  by (simp add: second_pass_photo_def load_exif_def info_getitem_def piexif_load_def
      piexif_dump_def truthy_def EXIF_DATETIME_TAG_def name_example_slice
      strptime_example_camera strftime_tag_example del: strftime.simps)

section \<open>First pass: names that are not recognised\<close>

text \<open>
  C1. A file name that starts with none of \<^verbatim>\<open>IMG\<close>, \<^verbatim>\<open>PXL\<close> and \<^verbatim>\<open>16\<close> is logged with a
  warning and gets no new name (\<^verbatim>\<open>new_name = None\<close>), and the claim is that nothing is
  copied into the staging folder for it. The copy that ends the loop body is not guarded:
  the file is copied into the staging folder under the name \<^verbatim>\<open>None\<close>.
\<close>

theorem unrecognized_name_is_copied_as_None:
  assumes "slice 0 3 name \<noteq> ''IMG''" and "slice 0 3 name \<noteq> ''PXL''"
    and "slice 0 2 name \<noteq> ''16''"
  shows "first_pass_photo libc current_date (name, content) st =
    Inr (st\<lparr>tmp := (tmp st)(''None'' \<mapsto> content),
             warnings := warnings st @ [name @ '' is not one of the known file naming schemes'']\<rparr>)"
  using assms
  by (simp add: first_pass_photo_def rename_photo_def shutil_copy_def fstring_def)

theorem unrecognized_name_is_copied_as_None_witness:
  "slice 0 3 ''DSC_0001.jpg'' \<noteq> ''IMG'' \<and> slice 0 3 ''DSC_0001.jpg'' \<noteq> ''PXL''
   \<and> slice 0 2 ''DSC_0001.jpg'' \<noteq> ''16''
   \<and> first_pass_photo (\<lambda>fmt t. []) ''20221122'' (''DSC_0001.jpg'', 7 :: nat)
        \<lparr>tmp = Map.empty, warnings = []\<rparr> =
      Inr \<lparr>tmp = [''None'' \<mapsto> 7],
           warnings = [''DSC_0001.jpg is not one of the known file naming schemes'']\<rparr>"
proof -
  have a: "slice 0 3 ''DSC_0001.jpg'' \<noteq> ''IMG''" and b: "slice 0 3 ''DSC_0001.jpg'' \<noteq> ''PXL''"
    and c: "slice 0 2 ''DSC_0001.jpg'' \<noteq> ''16''"
    by (simp_all add: slice_def)
  show ?thesis
    using a b c
      unrecognized_name_is_copied_as_None [OF a b c, of "\<lambda>fmt t. []" "''20221122''" "7 :: nat"
        "\<lparr>tmp = Map.empty, warnings = []\<rparr>"]
    by simp
qed

section \<open>First pass: the three examples of the specification\<close>

text \<open>
  C3. The name \<^verbatim>\<open>1669256881625.jpg\<close> in a folder of the date \<^verbatim>\<open>20221122\<close>: the first 13
  characters are read as milliseconds since the epoch. The claim gives 2022-11-23 23:28:01
  as the UTC time and 2022-11-24 07:28:01 as the local time; the code computes other times.
\<close>

theorem epoch_example_utc_counterexample:
  "map_sum id seconds_resolution (utcfromtimestamp_millis 1669256881625)
     \<noteq> Inr (2022, 11, 23, 23, 28, 1)"
  by code_simp

text \<open>
  C3, as amended. 1669256881 seconds after the epoch is 2022-11-24 02:28:01 UTC, eight
  hours later it is 2022-11-24 10:28:01 local time; that date is not the date of the
  folder, so the new name is \<^verbatim>\<open>IMG_20221122_120000_1669256881625.jpg\<close>.
\<close>

theorem epoch_example:
  "py_int (slice 0 13 ''1669256881625.jpg'') = Some 1669256881625
   \<and> utcfromtimestamp_millis 1669256881625 =
       Inr \<lparr>year = 2022, month = 11, day = 24, hour = 2, minute = 28, second = 1,
            microsecond = 625000\<rparr>
   \<and> add_hours \<lparr>year = 2022, month = 11, day = 24, hour = 2, minute = 28, second = 1,
            microsecond = 625000\<rparr> 8 =
       Inr \<lparr>year = 2022, month = 11, day = 24, hour = 10, minute = 28, second = 1,
            microsecond = 625000\<rparr>
   \<and> rename_photo libc ''20221122'' ''1669256881625.jpg'' =
       Inr (Some ''IMG_20221122_120000_1669256881625.jpg'', [])"
  by code_simp

theorem epoch_example_witness:
  "rename_photo (\<lambda>fmt t. []) ''20221122'' ''1669256881625.jpg'' =
       Inr (Some ''IMG_20221122_120000_1669256881625.jpg'', [])"
  using epoch_example [of "\<lambda>fmt t. []"] by simp

text \<open>
  C4. The name \<^verbatim>\<open>PXL_20221125_040253498.jpg\<close> in a folder of the date \<^verbatim>\<open>20221124\<close>:
  the local date is not the date of the folder, so the new name is the date of the folder,
  noon, and the whole old name.
\<close>

theorem pxl_example_fallback:
  "rename_photo libc ''20221124'' ''PXL_20221125_040253498.jpg'' =
     Inr (Some ''IMG_20221124_120000_PXL_20221125_040253498.jpg'', [])"
  by code_simp

theorem pxl_example_fallback_witness:
  "rename_photo (\<lambda>fmt t. []) ''20221124'' ''PXL_20221125_040253498.jpg'' =
     Inr (Some ''IMG_20221124_120000_PXL_20221125_040253498.jpg'', [])"
  using pxl_example_fallback [of "\<lambda>fmt t. []"] by simp

text \<open>
  C5. Every name that starts with \<^verbatim>\<open>PXL\<close> and has \<^verbatim>\<open>20221125_040253\<close> at positions 4 to
  18, in a folder of the date \<^verbatim>\<open>20221125\<close>: the UTC time read from the name is
  2022-11-25 04:02:53, the local time is eight hours later, 2022-11-25 12:02:53, its date
  is the date of the folder, and the new name is \<^verbatim>\<open>IMG_20221125_120253.jpg\<close>, whatever
  follows position 18 in the old name.
\<close>

theorem pxl_example_same_date:
  assumes "slice 0 3 name = ''PXL''" and "slice 4 19 name = ''20221125_040253''"
  shows "strptime (slice 4 19 name) =
      Inr \<lparr>year = 2022, month = 11, day = 25, hour = 4, minute = 2, second = 53,
           microsecond = 0\<rparr>
    \<and> add_hours \<lparr>year = 2022, month = 11, day = 25, hour = 4, minute = 2, second = 53,
           microsecond = 0\<rparr> 8 =
      Inr \<lparr>year = 2022, month = 11, day = 25, hour = 12, minute = 2, second = 53,
           microsecond = 0\<rparr>
    \<and> rename_photo libc ''20221125'' name = Inr (Some ''IMG_20221125_120253.jpg'', [])"
  using assms
  by (simp add: rename_photo_def strptime_example add_hours_example localize_example)

theorem pxl_example_same_date_witness:
  "slice 0 3 ''PXL_20221125_040253498.jpg'' = ''PXL''
   \<and> slice 4 19 ''PXL_20221125_040253498.jpg'' = ''20221125_040253''
   \<and> rename_photo (\<lambda>fmt t. []) ''20221125'' ''PXL_20221125_040253498.jpg'' =
       Inr (Some ''IMG_20221125_120253.jpg'', [])"
proof -
  have a: "slice 0 3 ''PXL_20221125_040253498.jpg'' = ''PXL''"
    and b: "slice 4 19 ''PXL_20221125_040253498.jpg'' = ''20221125_040253''"
    by (simp_all add: slice_def)
  show ?thesis
    using a b pxl_example_same_date [OF a b, of "\<lambda>fmt t. []"] by simp
qed

section \<open>First pass: a name that starts with 16 and is not a number\<close>

text \<open>
  C10. The third branch is chosen by the first two characters alone. The name
  \<^verbatim>\<open>16_party.jpg\<close> starts with \<^verbatim>\<open>16\<close>, its first 13 characters are not all digits,
  \<^verbatim>\<open>int\<close> raises \<^verbatim>\<open>ValueError\<close> on them, and the exception ends the loop over the
  folder: no warning is logged and no later photo is handled.
\<close>

theorem epoch_branch_raises_on_non_numeric_name:
  "slice 0 2 ''16_party.jpg'' = ''16''
   \<and> \<not> list_all is_digit (slice 0 13 ''16_party.jpg'')
   \<and> py_int (slice 0 13 ''16_party.jpg'') = None
   \<and> rename_photo libc current_date ''16_party.jpg'' = Inl ValueError
   \<and> first_pass libc current_date ((''16_party.jpg'', content) # photos) st = Inl ValueError"
proof -
  have r: "rename_photo libc current_date ''16_party.jpg'' = Inl ValueError"
    by code_simp
  have "slice 0 2 ''16_party.jpg'' = ''16''"
    by (simp add: slice_def)
  moreover have "\<not> list_all is_digit (slice 0 13 ''16_party.jpg'')"
    by (simp add: slice_def is_digit_def)
  moreover have "py_int (slice 0 13 ''16_party.jpg'') = None"
    by code_simp
  moreover have "first_pass libc current_date ((''16_party.jpg'', content) # photos) st
      = Inl ValueError"
    by (simp add: first_pass_photo_def r)
  ultimately show ?thesis
    using r by simp
qed

theorem epoch_branch_raises_on_non_numeric_name_witness:
  "rename_photo (\<lambda>fmt t. []) ''20221122'' ''16_party.jpg'' = Inl ValueError
   \<and> first_pass (\<lambda>fmt t. []) ''20221122'' [(''16_party.jpg'', 7 :: nat)]
        \<lparr>tmp = Map.empty, warnings = []\<rparr> = Inl ValueError"
  using epoch_branch_raises_on_non_numeric_name [of "\<lambda>fmt t. []" "''20221122''" "7 :: nat" "[]"
      "\<lparr>tmp = Map.empty, warnings = []\<rparr>"]
  by simp

section \<open>First pass and recovery: the time of a new name is read back\<close>

text \<open>
  C6. A name made by the branch that is not the fallback (the local time, eight hours
  after the time of the old name, has the date of the folder) is
  \<^verbatim>\<open>IMG_%Y%m%d_%H%M%S.jpg\<close> of the local time. The second pass reads positions 4 to 18
  of it with \<^verbatim>\<open>strptime\<close>: this succeeds, gives the local time (without its
  microseconds), and printing that time as \<^verbatim>\<open>%Y%m%d_%H%M%S\<close> gives the same 15
  characters again.
\<close>

theorem non_fallback_name_roundtrip:
  assumes "add_hours utc_time 8 = Inr local_time"
    and "strftime libc ''%Y%m%d'' local_time = current_date"
    and "localize libc current_date name utc_time = Inr new_name"
  shows "new_name = strftime libc ''IMG_%Y%m%d_%H%M%S.jpg'' local_time
    \<and> strptime (slice 4 19 new_name) = Inr (local_time\<lparr>microsecond := 0\<rparr>)
    \<and> strftime libc ''%Y%m%d_%H%M%S'' (local_time\<lparr>microsecond := 0\<rparr>) = slice 4 19 new_name"
proof -
  let ?stamp = "pad4 (year local_time) @ pad2 (month local_time) @ pad2 (day local_time)
    @ CHR ''_'' # pad2 (hour local_time) @ pad2 (minute local_time) @ pad2 (second local_time)"
  have n: "new_name = strftime libc ''IMG_%Y%m%d_%H%M%S.jpg'' local_time"
    using assms unfolding localize_def by (simp del: strftime.simps)
  have s: "slice 4 19 new_name = ?stamp"
    unfolding n strftime_name by (rule slice_name [OF length_stamp])
  have p: "strptime ?stamp = Inr (local_time\<lparr>microsecond := 0\<rparr>)"
    by (rule strptime_rendered [OF add_hours_valid [OF assms(1)]])
  have f: "strftime libc ''%Y%m%d_%H%M%S'' (local_time\<lparr>microsecond := 0\<rparr>) = ?stamp"
    unfolding strftime_stamp by simp
  show ?thesis using n s p f by simp
qed


theorem non_fallback_name_roundtrip_witness:
  "add_hours \<lparr>year = 2022, month = 11, day = 25, hour = 4, minute = 2, second = 53,
      microsecond = 0\<rparr> 8 =
     Inr \<lparr>year = 2022, month = 11, day = 25, hour = 12, minute = 2, second = 53, microsecond = 0\<rparr>
   \<and> strftime (\<lambda>fmt t. []) ''%Y%m%d'' \<lparr>year = 2022, month = 11, day = 25, hour = 12,
        minute = 2, second = 53, microsecond = 0\<rparr> = ''20221125''
   \<and> localize (\<lambda>fmt t. []) ''20221125'' ''PXL_20221125_040253498.jpg''
        \<lparr>year = 2022, month = 11, day = 25, hour = 4, minute = 2, second = 53, microsecond = 0\<rparr>
       = Inr ''IMG_20221125_120253.jpg''
   \<and> strptime (slice 4 19 ''IMG_20221125_120253.jpg'') =
       Inr \<lparr>year = 2022, month = 11, day = 25, hour = 12, minute = 2, second = 53,
            microsecond = 0\<rparr>
   \<and> strftime (\<lambda>fmt t. []) ''%Y%m%d_%H%M%S'' \<lparr>year = 2022, month = 11, day = 25, hour = 12,
        minute = 2, second = 53, microsecond = 0\<rparr> = slice 4 19 ''IMG_20221125_120253.jpg''"
proof -
  let ?L = "\<lambda>(fmt :: string) (t :: datetime). [] :: string"
  let ?u = "\<lparr>year = 2022, month = 11, day = 25, hour = 4, minute = 2, second = 53,
      microsecond = 0\<rparr>"
  let ?l = "\<lparr>year = 2022, month = 11, day = 25, hour = 12, minute = 2, second = 53,
      microsecond = 0\<rparr>"
  have a: "add_hours ?u 8 = Inr ?l"
    by (rule add_hours_example)
  have b: "strftime ?L ''%Y%m%d'' ?l = ''20221125''"
    by (rule strftime_date_example)
  have c: "localize ?L ''20221125'' ''PXL_20221125_040253498.jpg'' ?u
      = Inr ''IMG_20221125_120253.jpg''"
    by (rule localize_example)
  have d: "strptime (slice 4 19 ''IMG_20221125_120253.jpg'') = Inr ?l
      \<and> strftime ?L ''%Y%m%d_%H%M%S'' ?l = slice 4 19 ''IMG_20221125_120253.jpg''"
    using conjunct2 [OF non_fallback_name_roundtrip [OF a b c]]
    by (simp del: strftime.simps)
  show ?thesis
    using a b c d by (simp only: simp_thms)
qed

text \<open>
  C7. A name \<^verbatim>\<open>IMG_YYYYMMDD_HHMMSS.jpg\<close> whose digits are a date and a time of day (the
  constructor of \<^verbatim>\<open>datetime\<close> accepts them) is its own new name, whatever the date of
  the folder, and the second pass reads exactly that date and time from positions 4 to 18.
\<close>

theorem camera_native_name:
  assumes "new_datetime y m d hh mm ss 0 = Inr t"
    and "name = ''IMG_'' @ pad4 y @ pad2 m @ pad2 d @ ''_'' @ pad2 hh @ pad2 mm @ pad2 ss @ ''.jpg''"
  shows "rename_photo libc current_date name = Inr (Some name, [])
    \<and> strptime (slice 4 19 name) = Inr t
    \<and> seconds_resolution t = (y, m, d, hh, mm, ss)"
proof -
  let ?stamp = "pad4 y @ pad2 m @ pad2 d @ CHR ''_'' # pad2 hh @ pad2 mm @ pad2 ss"
  have n: "name = ''IMG_'' @ ?stamp @ ''.jpg''"
    using assms(2) by simp
  have "slice 0 3 name = ''IMG''"
    unfolding n by (simp add: slice_def)
  then have a: "rename_photo libc current_date name = Inr (Some name, [])"
    by (simp add: rename_photo_def)
  have "slice 4 19 name = ?stamp"
    unfolding n by (rule slice_name [OF length_stamp])
  then have b: "strptime (slice 4 19 name) = Inr t"
    using strptime_rendered [OF assms(1)] by simp
  have c: "seconds_resolution t = (y, m, d, hh, mm, ss)"
    using assms(1) by (auto simp add: new_datetime_def seconds_resolution_def split: if_splits)
  show ?thesis using a b c by simp
qed

theorem camera_native_name_witness:
  "new_datetime 2022 11 21 23 1 14 0 =
     Inr \<lparr>year = 2022, month = 11, day = 21, hour = 23, minute = 1, second = 14, microsecond = 0\<rparr>
   \<and> ''IMG_20221121_230114.jpg'' =
       ''IMG_'' @ pad4 2022 @ pad2 11 @ pad2 21 @ ''_'' @ pad2 23 @ pad2 1 @ pad2 14 @ ''.jpg''
   \<and> rename_photo (\<lambda>fmt t. []) ''20221125'' ''IMG_20221121_230114.jpg'' =
       Inr (Some ''IMG_20221121_230114.jpg'', [])
   \<and> strptime (slice 4 19 ''IMG_20221121_230114.jpg'') =
       Inr \<lparr>year = 2022, month = 11, day = 21, hour = 23, minute = 1, second = 14,
            microsecond = 0\<rparr>"
proof -
  have a: "new_datetime 2022 11 21 23 1 14 0 =
     Inr \<lparr>year = 2022, month = 11, day = 21, hour = 23, minute = 1, second = 14, microsecond = 0\<rparr>"
    by code_simp
  have b: "''IMG_20221121_230114.jpg'' =
       ''IMG_'' @ pad4 2022 @ pad2 11 @ pad2 21 @ ''_'' @ pad2 23 @ pad2 1 @ pad2 14 @ ''.jpg''"
    by code_simp
  show ?thesis
    using a b camera_native_name [OF a b, of "\<lambda>fmt t. []" "''20221125''"]
    by simp
qed

section \<open>Second pass: a file without an EXIF block\<close>

text \<open>
  C2. A staged file without an EXIF block is claimed to be handled as one with an empty
  block, so that the tag is written. The \<^verbatim>\<open>try\<close> of the loop body does that for the
  \<^verbatim>\<open>TypeError\<close> of \<^verbatim>\<open>piexif.load(None)\<close>, but the statement before it reads
  \<^verbatim>\<open>im.info["exif"]\<close>, which raises \<^verbatim>\<open>KeyError\<close> for such a file: the second pass ends
  there and nothing is written.
\<close>

theorem no_exif_block_raises_KeyError:
  assumes "info_exif im = None"
  shows "second_pass_photo libc jpeg name im = Inl KeyError"
  using assms by (simp add: second_pass_photo_def load_exif_def info_getitem_def)

theorem no_exif_block_raises_KeyError_witness:
  "info_exif \<lparr>pixels = 7 :: nat, info_exif = None\<rparr> = None
   \<and> second_pass_photo (\<lambda>fmt t. []) id ''IMG_20221125_120253.jpg''
        \<lparr>pixels = 7 :: nat, info_exif = None\<rparr> = Inl KeyError"
proof -
  have a: "info_exif \<lparr>pixels = 7 :: nat, info_exif = None\<rparr> = None" by simp
  show ?thesis
    using a no_exif_block_raises_KeyError [OF a, of "\<lambda>fmt t. []" id "''IMG_20221125_120253.jpg''"]
    by simp
qed


section \<open>Second pass: the tag is written once\<close>

text \<open>
  C8. The claim is that a file whose tag is there and not empty is always left alone with
  the result \<open>AlreadyPresent\<close>. The body of the second pass reads the time from
  positions 4 to 18 of the name before it looks at the tag, and the first pass stages
  every name that starts with \<^verbatim>\<open>IMG\<close> as it is: the staged file \<^verbatim>\<open>IMG_1234.jpg\<close> with
  a tag ends the second pass with \<^verbatim>\<open>ValueError\<close>, not with \<open>AlreadyPresent\<close>.
\<close>

theorem populated_tag_unparseable_name_counterexample:
  "rename_photo (\<lambda>fmt t. []) ''20221121'' ''IMG_1234.jpg'' = Inr (Some ''IMG_1234.jpg'', [])
   \<and> datetime_tag \<lparr>pixels = 7 :: nat, info_exif = Some (Block
        \<lparr>Exif = [36867 \<mapsto> ''2022:11:21 22:01:14''], other_parts = Map.empty\<rparr>)\<rparr>
     = Inr (Some ''2022:11:21 22:01:14'')
   \<and> truthy (Some ''2022:11:21 22:01:14'')
   \<and> second_pass_photo (\<lambda>fmt t. []) id ''IMG_1234.jpg''
        \<lparr>pixels = 7 :: nat, info_exif = Some (Block
          \<lparr>Exif = [36867 \<mapsto> ''2022:11:21 22:01:14''], other_parts = Map.empty\<rparr>)\<rparr>
     = Inl ValueError
   \<and> second_pass_photo (\<lambda>fmt t. []) id ''IMG_1234.jpg''
        \<lparr>pixels = 7 :: nat, info_exif = Some (Block
          \<lparr>Exif = [36867 \<mapsto> ''2022:11:21 22:01:14''], other_parts = Map.empty\<rparr>)\<rparr>
     \<noteq> Inr (AlreadyPresent, \<lparr>pixels = 7 :: nat, info_exif = Some (Block
          \<lparr>Exif = [36867 \<mapsto> ''2022:11:21 22:01:14''], other_parts = Map.empty\<rparr>)\<rparr>)"
proof -
  let ?old = "\<lparr>pixels = 7 :: nat, info_exif = Some (Block
        \<lparr>Exif = [36867 \<mapsto> ''2022:11:21 22:01:14''], other_parts = Map.empty\<rparr>)\<rparr>"
  have a: "rename_photo (\<lambda>fmt t. []) ''20221121'' ''IMG_1234.jpg''
      = Inr (Some ''IMG_1234.jpg'', [])"
    by (simp add: rename_photo_def slice_def)
  have b: "datetime_tag ?old = Inr (Some ''2022:11:21 22:01:14'')"
    by (simp add: datetime_tag_def info_getitem_def piexif_load_def EXIF_DATETIME_TAG_def)
  have c: "truthy (Some ''2022:11:21 22:01:14'')"
    by (simp add: truthy_def)
  have "strptime (slice 4 19 ''IMG_1234.jpg'') = Inl ValueError"
    by code_simp
  then have d: "second_pass_photo (\<lambda>fmt t. []) id ''IMG_1234.jpg'' ?old = Inl ValueError"
    by (simp add: second_pass_photo_def load_exif_def info_getitem_def piexif_load_def
        del: strftime.simps)
  then have e: "second_pass_photo (\<lambda>fmt t. []) id ''IMG_1234.jpg'' ?old
      \<noteq> Inr (AlreadyPresent, ?old)"
    by simp
  show ?thesis
    using a b c d e by (simp only: simp_thms)
qed

text \<open>
  C8, as amended. When the tag of a file is there and not empty, and positions 4 to 18 of
  the name are a time, the body of the second pass leaves the file as it is
  (\<open>AlreadyPresent\<close>: \<^verbatim>\<open>im.save\<close> does not run). After any run of the body that did not
  raise, a second run on the resulting file is \<open>AlreadyPresent\<close> and leaves that file as
  it is.
\<close>

theorem writer_idempotent:
  "(datetime_tag im = Inr v \<and> truthy v \<and> strptime (slice 4 19 name) = Inr t
      \<longrightarrow> second_pass_photo libc jpeg name im = Inr (AlreadyPresent, im))
   \<and> (second_pass_photo libc jpeg name im = Inr (r, im')
      \<longrightarrow> second_pass_photo libc jpeg name im' = Inr (AlreadyPresent, im'))"
proof (intro conjI impI)
  assume a: "datetime_tag im = Inr v \<and> truthy v \<and> strptime (slice 4 19 name) = Inr t"
  then obtain exif_dict where "info_exif im = Some (Block exif_dict)"
    and "Exif exif_dict EXIF_DATETIME_TAG = v"
    by (auto simp add: datetime_tag_def info_getitem_def piexif_load_def
        split: option.splits exif_block.splits)
  then show "second_pass_photo libc jpeg name im = Inr (AlreadyPresent, im)"
    using a second_pass_populated by blast
next
  assume run: "second_pass_photo libc jpeg name im = Inr (r, im')"
  from second_pass_result [OF run] obtain exif_dict t
    where e: "info_exif im = Some (Block exif_dict)"
    and p: "strptime (slice 4 19 name) = Inr t"
    and yes: "truthy (Exif exif_dict EXIF_DATETIME_TAG) \<Longrightarrow> r = AlreadyPresent \<and> im' = im"
    and no: "\<not> truthy (Exif exif_dict EXIF_DATETIME_TAG) \<Longrightarrow> r = Written \<and>
       im' = \<lparr>pixels = jpeg (pixels im), info_exif = Some (Block (exif_dict\<lparr>Exif := (Exif exif_dict)
         (EXIF_DATETIME_TAG \<mapsto> strftime libc ''%Y:%m:%d %H:%M:%S'' t)\<rparr>))\<rparr>"
    by (auto simp del: strftime.simps split: if_splits)
  show "second_pass_photo libc jpeg name im' = Inr (AlreadyPresent, im')"
  proof (cases "truthy (Exif exif_dict EXIF_DATETIME_TAG)")
    case True
    then show ?thesis using yes e p second_pass_populated by blast
  next
    case False
    let ?d = "exif_dict\<lparr>Exif := (Exif exif_dict)
         (EXIF_DATETIME_TAG \<mapsto> strftime libc ''%Y:%m:%d %H:%M:%S'' t)\<rparr>"
    have "info_exif im' = Some (Block ?d)"
      using no [OF False] by simp
    moreover have "truthy (Exif ?d EXIF_DATETIME_TAG)"
      using tag_not_empty [of libc t] by (simp add: truthy_def del: strftime.simps)
    ultimately show ?thesis
      using p by (rule second_pass_populated)
  qed
qed


theorem writer_idempotent_witness:
  "datetime_tag \<lparr>pixels = 7 :: nat, info_exif = Some (Block
        \<lparr>Exif = [36867 \<mapsto> ''2022:11:21 22:01:14''], other_parts = Map.empty\<rparr>)\<rparr>
     = Inr (Some ''2022:11:21 22:01:14'')
   \<and> truthy (Some ''2022:11:21 22:01:14'')
   \<and> strptime (slice 4 19 ''IMG_20221121_230114.jpg'') =
       Inr \<lparr>year = 2022, month = 11, day = 21, hour = 23, minute = 1, second = 14,
            microsecond = 0\<rparr>
   \<and> second_pass_photo (\<lambda>fmt t. []) id ''IMG_20221121_230114.jpg''
        \<lparr>pixels = 7 :: nat, info_exif = Some (Block
          \<lparr>Exif = [36867 \<mapsto> ''2022:11:21 22:01:14''], other_parts = Map.empty\<rparr>)\<rparr>
     = Inr (AlreadyPresent, \<lparr>pixels = 7, info_exif = Some (Block
          \<lparr>Exif = [36867 \<mapsto> ''2022:11:21 22:01:14''], other_parts = Map.empty\<rparr>)\<rparr>)
   \<and> second_pass_photo (\<lambda>fmt t. []) id ''IMG_20221121_230114.jpg''
        \<lparr>pixels = 7 :: nat, info_exif = Some (Block
          \<lparr>Exif = Map.empty, other_parts = Map.empty\<rparr>)\<rparr>
     = Inr (Written, \<lparr>pixels = 7, info_exif = Some (Block
          \<lparr>Exif = [36867 \<mapsto> ''2022:11:21 23:01:14''], other_parts = Map.empty\<rparr>)\<rparr>)
   \<and> second_pass_photo (\<lambda>fmt t. []) id ''IMG_20221121_230114.jpg''
        \<lparr>pixels = 7 :: nat, info_exif = Some (Block
          \<lparr>Exif = [36867 \<mapsto> ''2022:11:21 23:01:14''], other_parts = Map.empty\<rparr>)\<rparr>
     = Inr (AlreadyPresent, \<lparr>pixels = 7, info_exif = Some (Block
          \<lparr>Exif = [36867 \<mapsto> ''2022:11:21 23:01:14''], other_parts = Map.empty\<rparr>)\<rparr>)"
proof -
  let ?L = "\<lambda>(fmt :: string) (t :: datetime). [] :: string"
  let ?name = "''IMG_20221121_230114.jpg''"
  let ?t = "\<lparr>year = 2022, month = 11, day = 21, hour = 23, minute = 1, second = 14,
      microsecond = 0\<rparr>"
  let ?old = "\<lparr>pixels = 7 :: nat, info_exif = Some (Block
        \<lparr>Exif = [36867 \<mapsto> ''2022:11:21 22:01:14''], other_parts = Map.empty\<rparr>)\<rparr>"
  let ?none = "\<lparr>pixels = 7 :: nat, info_exif = Some (Block
        \<lparr>Exif = Map.empty, other_parts = Map.empty\<rparr>)\<rparr>"
  let ?new = "\<lparr>pixels = 7 :: nat, info_exif = Some (Block
        \<lparr>Exif = [36867 \<mapsto> ''2022:11:21 23:01:14''], other_parts = Map.empty\<rparr>)\<rparr>"
  have a: "datetime_tag ?old = Inr (Some ''2022:11:21 22:01:14'')"
    by (simp add: datetime_tag_def info_getitem_def piexif_load_def EXIF_DATETIME_TAG_def)
  have b: "truthy (Some ''2022:11:21 22:01:14'')"
    by (simp add: truthy_def)
  have c: "strptime (slice 4 19 ?name) = Inr ?t"
    by (simp only: name_example_slice strptime_example_camera)
  have d: "second_pass_photo ?L id ?name ?none = Inr (Written, ?new)"
    using second_pass_example_absent [of ?L id "7 :: nat"] by simp
  have first: "second_pass_photo ?L id ?name ?old = Inr (AlreadyPresent, ?old)"
    using a b c writer_idempotent [of ?old "Some ''2022:11:21 22:01:14''" ?name ?t ?L id]
    by blast
  have second: "second_pass_photo ?L id ?name ?new = Inr (AlreadyPresent, ?new)"
    using d writer_idempotent [of ?none _ ?name _ ?L id Written ?new]
    by blast
  show ?thesis
    using a b c d first second by (simp only: simp_thms)
qed

section \<open>Second pass: the tag and the name\<close>

text \<open>
  C9. The claim is that the tag of every finalised file is the time of positions 4 to 18
  of its name. The second pass writes the tag only when there is none, so a photo of the
  camera that has a tag keeps it, whatever its name says: the file
  \<^verbatim>\<open>IMG_20221121_230114.jpg\<close> with the tag \<^verbatim>\<open>2022:11:21 22:01:14\<close> (the output of
  the last cell of the notebook shows this file) is left as it is.
\<close>

theorem tag_disagrees_with_filename_counterexample:
  "second_pass_photo (\<lambda>fmt t. []) id ''IMG_20221121_230114.jpg''
        \<lparr>pixels = 7 :: nat, info_exif = Some (Block
          \<lparr>Exif = [36867 \<mapsto> ''2022:11:21 22:01:14''], other_parts = Map.empty\<rparr>)\<rparr>
     = Inr (AlreadyPresent, \<lparr>pixels = 7, info_exif = Some (Block
          \<lparr>Exif = [36867 \<mapsto> ''2022:11:21 22:01:14''], other_parts = Map.empty\<rparr>)\<rparr>)
   \<and> \<not> filename_tag_agree (\<lambda>fmt t. []) ''IMG_20221121_230114.jpg''
        \<lparr>pixels = 7 :: nat, info_exif = Some (Block
          \<lparr>Exif = [36867 \<mapsto> ''2022:11:21 22:01:14''], other_parts = Map.empty\<rparr>)\<rparr>"
proof -
  have "\<not> filename_tag_agree (\<lambda>fmt t. []) ''IMG_20221121_230114.jpg''
        \<lparr>pixels = 7 :: nat, info_exif = Some (Block
          \<lparr>Exif = [36867 \<mapsto> ''2022:11:21 22:01:14''], other_parts = Map.empty\<rparr>)\<rparr>"
    by (simp add: filename_tag_agree_def name_example_slice strptime_example_camera
        strftime_tag_example datetime_tag_def info_getitem_def piexif_load_def
        EXIF_DATETIME_TAG_def del: strftime.simps)
  then show ?thesis
    using second_pass_example_present [of "\<lambda>fmt t. []" id "7 :: nat"] by simp
qed

text \<open>
  C9, as amended. The files the second pass finalises are those with an EXIF block that
  decodes and a name whose positions 4 to 18 are a time. For such a file: when the tag is
  absent or empty, the pass writes it (\<open>Written\<close>), and the tag of the finalised file is
  the time of positions 4 to 18 of its name, written as \<^verbatim>\<open>YYYY:MM:DD HH:MM:SS\<close>; when
  the tag is there and not empty, the pass leaves the file, with that tag, as it was
  (\<open>AlreadyPresent\<close>).
\<close>

theorem written_tag_agrees_with_filename:
  "(datetime_tag im = Inr v \<and> strptime (slice 4 19 name) = Inr t \<and> \<not> truthy v
      \<longrightarrow> (\<exists>im'. second_pass_photo libc jpeg name im = Inr (Written, im')
            \<and> datetime_tag im' = Inr (Some (strftime libc ''%Y:%m:%d %H:%M:%S'' t))
            \<and> filename_tag_agree libc name im'))
   \<and> (datetime_tag im = Inr v \<and> strptime (slice 4 19 name) = Inr t \<and> truthy v
      \<longrightarrow> second_pass_photo libc jpeg name im = Inr (AlreadyPresent, im))
   \<and> (second_pass_photo libc jpeg name im = Inr (r, im'')
      \<longrightarrow> (\<exists>v' t'. datetime_tag im = Inr v' \<and> strptime (slice 4 19 name) = Inr t'))"
proof (intro conjI impI)
  assume a: "datetime_tag im = Inr v \<and> strptime (slice 4 19 name) = Inr t \<and> \<not> truthy v"
  then obtain exif_dict where e: "info_exif im = Some (Block exif_dict)"
    and v: "Exif exif_dict EXIF_DATETIME_TAG = v"
    by (auto simp add: datetime_tag_def info_getitem_def piexif_load_def
        split: option.splits exif_block.splits)
  let ?im' = "\<lparr>pixels = jpeg (pixels im), info_exif = Some (Block (exif_dict\<lparr>Exif :=
    (Exif exif_dict)(EXIF_DATETIME_TAG \<mapsto> strftime libc ''%Y:%m:%d %H:%M:%S'' t)\<rparr>))\<rparr>"
  have run: "second_pass_photo libc jpeg name im = Inr (Written, ?im')"
    using a e v
    by (simp add: second_pass_photo_def load_exif_def info_getitem_def piexif_load_def
        piexif_dump_def del: strftime.simps)
  have tag: "datetime_tag ?im' = Inr (Some (strftime libc ''%Y:%m:%d %H:%M:%S'' t))"
    by (simp add: datetime_tag_def info_getitem_def piexif_load_def del: strftime.simps)
  have "filename_tag_agree libc name ?im'"
    using a tag by (simp add: filename_tag_agree_def del: strftime.simps)
  then show "\<exists>im'. second_pass_photo libc jpeg name im = Inr (Written, im')
      \<and> datetime_tag im' = Inr (Some (strftime libc ''%Y:%m:%d %H:%M:%S'' t))
      \<and> filename_tag_agree libc name im'"
    using run tag by blast
next
  assume a: "datetime_tag im = Inr v \<and> strptime (slice 4 19 name) = Inr t \<and> truthy v"
  then obtain exif_dict where "info_exif im = Some (Block exif_dict)"
    and "Exif exif_dict EXIF_DATETIME_TAG = v"
    by (auto simp add: datetime_tag_def info_getitem_def piexif_load_def
        split: option.splits exif_block.splits)
  then show "second_pass_photo libc jpeg name im = Inr (AlreadyPresent, im)"
    using a second_pass_populated by blast
next
  assume "second_pass_photo libc jpeg name im = Inr (r, im'')"
  from second_pass_result [OF this] obtain exif_dict t'
    where "info_exif im = Some (Block exif_dict)" and "strptime (slice 4 19 name) = Inr t'"
    by blast
  then show "\<exists>v' t'. datetime_tag im = Inr v' \<and> strptime (slice 4 19 name) = Inr t'"
    by (simp add: datetime_tag_def info_getitem_def piexif_load_def)
qed

theorem written_tag_agrees_with_filename_witness:
  "datetime_tag \<lparr>pixels = 7 :: nat, info_exif = Some (Block
        \<lparr>Exif = Map.empty, other_parts = Map.empty\<rparr>)\<rparr> = Inr None
   \<and> strptime (slice 4 19 ''IMG_20221121_230114.jpg'') =
       Inr \<lparr>year = 2022, month = 11, day = 21, hour = 23, minute = 1, second = 14,
            microsecond = 0\<rparr>
   \<and> \<not> truthy None
   \<and> second_pass_photo (\<lambda>fmt t. []) id ''IMG_20221121_230114.jpg''
        \<lparr>pixels = 7 :: nat, info_exif = Some (Block
          \<lparr>Exif = Map.empty, other_parts = Map.empty\<rparr>)\<rparr>
     = Inr (Written, \<lparr>pixels = 7, info_exif = Some (Block
          \<lparr>Exif = [36867 \<mapsto> ''2022:11:21 23:01:14''], other_parts = Map.empty\<rparr>)\<rparr>)
   \<and> filename_tag_agree (\<lambda>fmt t. []) ''IMG_20221121_230114.jpg''
        \<lparr>pixels = 7 :: nat, info_exif = Some (Block
          \<lparr>Exif = [36867 \<mapsto> ''2022:11:21 23:01:14''], other_parts = Map.empty\<rparr>)\<rparr>
   \<and> datetime_tag \<lparr>pixels = 7 :: nat, info_exif = Some (Block
        \<lparr>Exif = [36867 \<mapsto> ''2022:11:21 22:01:14''], other_parts = Map.empty\<rparr>)\<rparr>
     = Inr (Some ''2022:11:21 22:01:14'')
   \<and> truthy (Some ''2022:11:21 22:01:14'')
   \<and> second_pass_photo (\<lambda>fmt t. []) id ''IMG_20221121_230114.jpg''
        \<lparr>pixels = 7 :: nat, info_exif = Some (Block
          \<lparr>Exif = [36867 \<mapsto> ''2022:11:21 22:01:14''], other_parts = Map.empty\<rparr>)\<rparr>
     = Inr (AlreadyPresent, \<lparr>pixels = 7, info_exif = Some (Block
          \<lparr>Exif = [36867 \<mapsto> ''2022:11:21 22:01:14''], other_parts = Map.empty\<rparr>)\<rparr>)"
proof -
  let ?L = "\<lambda>(fmt :: string) (t :: datetime). [] :: string"
  let ?name = "''IMG_20221121_230114.jpg''"
  let ?t = "\<lparr>year = 2022, month = 11, day = 21, hour = 23, minute = 1, second = 14,
      microsecond = 0\<rparr>"
  let ?old = "\<lparr>pixels = 7 :: nat, info_exif = Some (Block
        \<lparr>Exif = [36867 \<mapsto> ''2022:11:21 22:01:14''], other_parts = Map.empty\<rparr>)\<rparr>"
  let ?none = "\<lparr>pixels = 7 :: nat, info_exif = Some (Block
        \<lparr>Exif = Map.empty, other_parts = Map.empty\<rparr>)\<rparr>"
  let ?new = "\<lparr>pixels = 7 :: nat, info_exif = Some (Block
        \<lparr>Exif = [36867 \<mapsto> ''2022:11:21 23:01:14''], other_parts = Map.empty\<rparr>)\<rparr>"
  have a: "datetime_tag ?none = Inr None"
    by (simp add: datetime_tag_def info_getitem_def piexif_load_def)
  have b: "strptime (slice 4 19 ?name) = Inr ?t"
    by (simp only: name_example_slice strptime_example_camera)
  have c: "\<not> truthy None"
    by (simp add: truthy_def)
  have d: "second_pass_photo ?L id ?name ?none = Inr (Written, ?new)"
    using second_pass_example_absent [of ?L id "7 :: nat"] by simp
  have e: "datetime_tag ?old = Inr (Some ''2022:11:21 22:01:14'')"
    by (simp add: datetime_tag_def info_getitem_def piexif_load_def EXIF_DATETIME_TAG_def)
  have f: "truthy (Some ''2022:11:21 22:01:14'')"
    by (simp add: truthy_def)
  from a b c written_tag_agrees_with_filename [of ?none None ?name ?t ?L id]
  obtain im' where "second_pass_photo ?L id ?name ?none = Inr (Written, im')"
    and "filename_tag_agree ?L ?name im'"
    by blast
  then have g: "filename_tag_agree ?L ?name ?new"
    using d by simp
  have h: "second_pass_photo ?L id ?name ?old = Inr (AlreadyPresent, ?old)"
    using e b f written_tag_agrees_with_filename [of ?old "Some ''2022:11:21 22:01:14''" ?name ?t
        ?L id]
    by blast
  show ?thesis
    using a b c d e f g h by (simp only: simp_thms)
qed

end
